theory Spec2Isabelle
  imports Main "HOL-Library.Multiset" "HOL-Library.Product_Lexorder"
begin

section \<open>Strings: Python \<open>str.strip\<close>, \<open>str.lower\<close> and SQLite \<open>LOWER\<close>\<close>

text \<open>
  A Python string is modelled as a \<^typ>\<open>string\<close> whose characters are the code points
  below 256 (Latin-1). \<open>str.lower()\<close> lowers the ASCII capitals and the Latin-1
  capitals (\<open>0xC0\<close> to \<open>0xDE\<close> without the multiplication sign \<open>0xD7\<close>);
  SQLite's built-in \<open>LOWER\<close> lowers the ASCII capitals only. \<open>str.strip()\<close> removes
  leading and trailing whitespace as \<open>str.isspace\<close> sees it.
\<close>

definition py_lower_char :: "char \<Rightarrow> char" where
  "py_lower_char c =
     (let n = (of_char c :: nat)
      in if (65 \<le> n \<and> n \<le> 90) \<or> (192 \<le> n \<and> n \<le> 222 \<and> n \<noteq> 215)
         then char_of (n + 32) else c)"

definition sql_lower_char :: "char \<Rightarrow> char" where
  "sql_lower_char c =
     (let n = (of_char c :: nat)
      in if 65 \<le> n \<and> n \<le> 90 then char_of (n + 32) else c)"

definition py_isspace :: "char \<Rightarrow> bool" where
  "py_isspace c =
     (let n = (of_char c :: nat)
      in (9 \<le> n \<and> n \<le> 13) \<or> (28 \<le> n \<and> n \<le> 32) \<or> n = 133 \<or> n = 160)"

definition py_lower :: "string \<Rightarrow> string" where
  "py_lower s = map py_lower_char s"

definition sql_lower :: "string \<Rightarrow> string" where
  "sql_lower s = map sql_lower_char s"

definition py_strip :: "string \<Rightarrow> string" where
  "py_strip s = rev (dropWhile py_isspace (rev (dropWhile py_isspace s)))"

text \<open>\<open>email.strip().lower()\<close>, the first statement of \<open>add_employee\<close>,
  \<open>update_employee\<close> and \<open>find_employee_by_email\<close>.\<close>

definition normalize_email :: "string \<Rightarrow> string" where
  "normalize_email email = py_lower (py_strip email)"

section \<open>The database of \<open>database.py\<close>\<close>

text \<open>
  The two tables of \<open>init_db\<close>, a row per record, in rowid order. The timestamp
  columns \<open>created_at\<close> and \<open>assigned_at\<close> are left out: no operation below reads
  them. \<open>process_name\<close> of \<open>processes\<close> carries no UNIQUE constraint, so a table
  may hold several rows of one name; \<open>email\<close> of \<open>employees\<close> is UNIQUE (binary
  comparison) and both \<open>id\<close> columns are \<open>INTEGER PRIMARY KEY AUTOINCREMENT\<close>,
  whose last value SQLite keeps in \<open>sqlite_sequence\<close>. \<open>vacancy\<close> is an
  \<open>INTEGER\<close> column: an \<^typ>\<open>int\<close>, of either sign. \<open>purge_deleted_emails\<close>,
  which the operations call before and after their transaction, runs \<open>VACUUM\<close> and
  changes no row; it has no counterpart here.
\<close>

record process_row =
  proc_id :: int
  proc_name :: string
  proc_potential :: string
  proc_communication :: string
  proc_vacancy :: int

record employee_row =
  emp_id :: int
  emp_name :: string
  emp_email :: string
  emp_potential :: string
  emp_communication :: string
  emp_process_id :: "int option"
  emp_process_name :: "string option"

record db =
  processes :: "process_row list"
  employees :: "employee_row list"
  process_seq :: int
  employee_seq :: int

text \<open>\<open>init_db\<close> removes the database file and creates both tables empty.\<close>

definition init_db :: db where
  "init_db = \<lparr>processes = [], employees = [], process_seq = 0, employee_seq = 0\<rparr>"

subsection \<open>SQL statements\<close>

text \<open>\<open>UPDATE t SET ... WHERE c\<close>: the rows after the statement and
  \<open>cursor.rowcount\<close>, the number of rows the condition selected.\<close>

definition sql_update :: "('r \<Rightarrow> bool) \<Rightarrow> ('r \<Rightarrow> 'r) \<Rightarrow> 'r list \<Rightarrow> 'r list \<times> nat" where
  "sql_update c f rows = (map (\<lambda>r. if c r then f r else r) rows, length (filter c rows))"

text \<open>\<open>DELETE FROM t WHERE c\<close>, with its \<open>rowcount\<close>.\<close>

definition sql_delete :: "('r \<Rightarrow> bool) \<Rightarrow> 'r list \<Rightarrow> 'r list \<times> nat" where
  "sql_delete c rows = (filter (\<lambda>r. \<not> c r) rows, length (filter c rows))"

text \<open>\<open>cursor.fetchone()\<close> after a \<open>SELECT ... WHERE c\<close>: the first selected row,
  or \<open>None\<close>.\<close>

definition fetchone :: "('r \<Rightarrow> bool) \<Rightarrow> 'r list \<Rightarrow> 'r option" where
  "fetchone c rows = (case filter c rows of [] \<Rightarrow> None | r # _ \<Rightarrow> Some r)"

text \<open>The rowid an AUTOINCREMENT column gives the next inserted row: one more than the
  largest rowid the table has ever held.\<close>

definition next_rowid :: "int \<Rightarrow> int list \<Rightarrow> int" where
  "next_rowid seq ids = foldr max ids seq + 1"

text \<open>
  \<open>BEGIN TRANSACTION\<close> ... \<open>ROLLBACK\<close> / \<open>COMMIT\<close>: an operation starts from
  the stored state \<open>s\<close> and works on a state \<open>w\<close>; \<open>ROLLBACK\<close> leaves the
  stored state as it was at \<open>BEGIN\<close>, \<open>COMMIT\<close> stores the working state.
\<close>

definition rollback :: "db \<Rightarrow> db \<Rightarrow> db" where
  "rollback s w = s"

definition commit :: "db \<Rightarrow> db \<Rightarrow> db" where
  "commit s w = w"

text \<open>Python truthiness of an optional string (\<open>if process_name:\<close>): \<open>None\<close> and
  the empty string are false.\<close>

fun truthy :: "string option \<Rightarrow> bool" where
  "truthy None = False"
| "truthy (Some n) = (n \<noteq> [])"

fun str_of :: "string option \<Rightarrow> string" where
  "str_of None = []"
| "str_of (Some n) = n"

text \<open>The second component of the pairs the operations return: the message strings of
  \<open>database.py\<close>, one constructor per message.\<close>

datatype message =
    EmailExists                      \<comment> \<open>"Email already exists in the database"\<close>
  | ProcessNotFound string           \<comment> \<open>"Process ... not found"\<close>
  | NoVacancy string                 \<comment> \<open>"No vacancy available in ..."\<close>
  | FailedVacancyUpdate string       \<comment> \<open>"Failed to update vacancy for ..."\<close>
  | EmployeeAdded                    \<comment> \<open>"Employee added successfully"\<close>
  | EmailExistsOther                 \<comment> \<open>"Email already exists for another employee"\<close>
  | EmployeeNotFound                 \<comment> \<open>"Employee not found"\<close>
  | EmployeeNotFoundOrNoChanges      \<comment> \<open>"Employee not found or no changes made"\<close>
  | EmployeeUpdated                  \<comment> \<open>"Employee updated successfully"\<close>
  | EmployeeNotDeleted               \<comment> \<open>"Employee could not be deleted"\<close>
  | EmployeeDeleted "string option"  \<comment> \<open>"Employee deleted and process '...' vacancy updated"\<close>
  | DatabaseError                    \<comment> \<open>"Database error: ..."\<close>

subsection \<open>Python integers and SQLite's \<open>INTEGER\<close>\<close>

text \<open>
  A Python \<open>int\<close> is unbounded; an SQLite \<open>INTEGER\<close> is a signed 64-bit value.
  Binding a Python \<open>int\<close> outside that range as a statement parameter raises
  \<open>OverflowError\<close> before the statement runs.
\<close>

definition int64 :: "int \<Rightarrow> bool" where
  "int64 n = (- 9223372036854775808 \<le> n \<and> n \<le> 9223372036854775807)"

subsection \<open>\<open>update_process_vacancy\<close>\<close>

text \<open>
  What a call of \<open>update_process_vacancy\<close> does, besides the stored state it leaves:
  it returns a \<open>bool\<close>; or it raises \<open>OverflowError\<close> out of the first
  \<open>cursor.execute\<close>, which no handler catches (nothing is written); or it returns
  \<open>True\<close> after SQLite has left integer arithmetic. That last case arises when a row of
  the given name does not hold a 64-bit integer, or when \<open>vacancy + change\<close> exceeds
  the 64-bit range: SQLite then adds in floating point and stores the rounded result.
  Floating point is outside this model: the outcome \<open>Floating_Point\<close> marks the case,
  and the state component then carries the exact sum, which the stored value only
  approximates. A sum below the 64-bit range arises only for \<open>change < 0\<close>, where the
  \<open>CASE\<close> sees a negative value and stores the integer 0, as the definition has it.
\<close>

datatype outcome = Returned bool | Raised_OverflowError | Floating_Point

definition update_process_vacancy :: "string \<Rightarrow> int \<Rightarrow> db \<Rightarrow> outcome \<times> db" where
  "update_process_vacancy process_name change s =
     (if \<not> int64 change then (Raised_OverflowError, s)
      else
       (let (rows, rowcount) =
              (if change < 0
               then sql_update (\<lambda>p. proc_name p = process_name)
                      (\<lambda>p. p\<lparr>proc_vacancy :=
                              (if proc_vacancy p + change < 0 then 0 else proc_vacancy p + change)\<rparr>)
                      (processes s)
               else sql_update (\<lambda>p. proc_name p = process_name)
                      (\<lambda>p. p\<lparr>proc_vacancy := proc_vacancy p + change\<rparr>)
                      (processes s))
        in if rowcount = 0 then (Returned False, s)
           else (let s' = s\<lparr>processes := rows\<rparr>
                 in if \<exists>p \<in> set (processes s).
                         proc_name p = process_name \<and>
                         (\<not> int64 (proc_vacancy p) \<or>
                          (0 \<le> change \<and> \<not> int64 (proc_vacancy p + change)))
                    then (Floating_Point, s')
                    else (Returned (fetchone (\<lambda>p. proc_name p = process_name) (processes s') \<noteq> None),
                          s'))))"

subsection \<open>\<open>add_employee\<close>\<close>

text \<open>
  The block under \<open>if process_name:\<close> (lines 189 to 222 of \<open>add_employee\<close>, and
  again lines 396 to 425 of \<open>update_employee\<close>): look the process up, check its
  vacancy, decrement. \<open>Inl\<close> is an early return: its message and the working
  state the \<open>ROLLBACK\<close> before it discards; \<open>Inr\<close> is the \<open>process_id\<close>
  and the working state the function goes on with.
\<close>

definition reserve_vacancy :: "string \<Rightarrow> db \<Rightarrow> (message \<times> db) + (int option \<times> db)" where
  "reserve_vacancy process_name w =
     (case fetchone (\<lambda>p. proc_name p = process_name) (processes w) of
        None \<Rightarrow> Inl (ProcessNotFound process_name, w)
      | Some result \<Rightarrow>
          if proc_vacancy result \<le> 0 then Inl (NoVacancy process_name, w)
          else (let (rows, rowcount) =
                      sql_update (\<lambda>p. proc_name p = process_name)
                        (\<lambda>p. p\<lparr>proc_vacancy :=
                                (if proc_vacancy p > 0 then proc_vacancy p - 1 else 0)\<rparr>)
                        (processes w)
                in if rowcount = 0 then Inl (FailedVacancyUpdate process_name, w\<lparr>processes := rows\<rparr>)
                   else Inr (Some (proc_id result), w\<lparr>processes := rows\<rparr>)))"

text \<open>An \<open>INSERT\<close> whose email is already stored violates the UNIQUE constraint; the
  exception handler rolls back and returns "Database error".\<close>

definition add_employee ::
  "string \<Rightarrow> string \<Rightarrow> string \<Rightarrow> string \<Rightarrow> string option \<Rightarrow> db \<Rightarrow> (bool \<times> message) \<times> db" where
  "add_employee name email potential communication process_name s =
     (let email = normalize_email email;
          count = length (filter (\<lambda>e. sql_lower (emp_email e) = sql_lower email) (employees s))
      in if count > 0 then ((False, EmailExists), rollback s s)
         else
           (case (if truthy process_name
                  then reserve_vacancy (str_of process_name) s
                  else Inr (None, s)) of
              Inl (msg, w) \<Rightarrow> ((False, msg), rollback s w)
            | Inr (process_id, w) \<Rightarrow>
                if \<exists>e \<in> set (employees w). emp_email e = email
                then ((False, DatabaseError), rollback s w)
                else (let i = next_rowid (employee_seq w) (map emp_id (employees w));
                          row = \<lparr>emp_id = i, emp_name = name, emp_email = email,
                                 emp_potential = potential, emp_communication = communication,
                                 emp_process_id = process_id, emp_process_name = process_name\<rparr>
                      in ((True, EmployeeAdded),
                          commit s (w\<lparr>employees := employees w @ [row], employee_seq := i\<rparr>)))))"

subsection \<open>\<open>update_employee\<close>\<close>

text \<open>The first statement binds \<open>employee_id\<close>: for an id outside the 64-bit
  range the \<open>OverflowError\<close> reaches the handler, which rolls back and returns
  "Database error".\<close>

definition update_employee ::
  "int \<Rightarrow> string \<Rightarrow> string \<Rightarrow> string \<Rightarrow> string \<Rightarrow> string option \<Rightarrow> db
     \<Rightarrow> (bool \<times> message) \<times> db" where
  "update_employee employee_id name email potential communication process_name s =
     (let email = normalize_email email
      in if \<not> int64 employee_id then ((False, DatabaseError), rollback s s)
         else if fetchone (\<lambda>e. sql_lower (emp_email e) = sql_lower email \<and> emp_id e \<noteq> employee_id)
              (employees s) \<noteq> None
         then ((False, EmailExistsOther), rollback s s)
         else
           (case fetchone (\<lambda>e. emp_id e = employee_id) (employees s) of
              None \<Rightarrow> ((False, EmployeeNotFound), rollback s s)
            | Some result \<Rightarrow>
                (let old_process = emp_process_name result
                 in case (if old_process \<noteq> process_name
                          then (let w = (if truthy old_process
                                         then s\<lparr>processes :=
                                                 fst (sql_update (\<lambda>p. proc_name p = str_of old_process)
                                                        (\<lambda>p. p\<lparr>proc_vacancy := proc_vacancy p + 1\<rparr>)
                                                        (processes s))\<rparr>
                                         else s)
                                in if truthy process_name
                                   then reserve_vacancy (str_of process_name) w
                                   else Inr (None, w))
                          else Inr (if truthy process_name
                                    then map_option proc_id
                                           (fetchone (\<lambda>p. proc_name p = str_of process_name) (processes s))
                                    else None, s)) of
                      Inl (msg, w) \<Rightarrow> ((False, msg), rollback s w)
                    | Inr (process_id, w) \<Rightarrow>
                        if \<exists>e \<in> set (employees w). emp_id e \<noteq> employee_id \<and> emp_email e = email
                        then ((False, DatabaseError), rollback s w)
                        else (let (rows, rowcount) =
                                    sql_update (\<lambda>e. emp_id e = employee_id)
                                      (\<lambda>e. e\<lparr>emp_name := name, emp_email := email,
                                              emp_potential := potential,
                                              emp_communication := communication,
                                              emp_process_id := process_id,
                                              emp_process_name := process_name\<rparr>)
                                      (employees w)
                              in if rowcount = 0
                                 then ((False, EmployeeNotFoundOrNoChanges), rollback s w)
                                 else ((True, EmployeeUpdated), commit s (w\<lparr>employees := rows\<rparr>))))))"

subsection \<open>\<open>delete_employee\<close>\<close>

definition delete_employee :: "int \<Rightarrow> db \<Rightarrow> (bool \<times> message) \<times> db" where
  "delete_employee employee_id s =
     (case fetchone (\<lambda>e. emp_id e = employee_id) (employees s) of
        None \<Rightarrow> ((False, EmployeeNotFound), rollback s s)
      | Some result \<Rightarrow>
          (let process_name = emp_process_name result;
               (rows, rowcount) = sql_delete (\<lambda>e. emp_id e = employee_id) (employees s)
           in if rowcount = 0 then ((False, EmployeeNotDeleted), rollback s (s\<lparr>employees := rows\<rparr>))
              else (let w = s\<lparr>employees := rows\<rparr>;
                        w = (if truthy process_name
                             then w\<lparr>processes :=
                                     fst (sql_update (\<lambda>p. proc_name p = str_of process_name)
                                            (\<lambda>p. p\<lparr>proc_vacancy := proc_vacancy p + 1\<rparr>)
                                            (processes w))\<rparr>
                             else w)
                    in ((True, EmployeeDeleted process_name), commit s w))))"

subsection \<open>Sequences of calls\<close>

datatype call =
    AdjustVacancy string int
  | AddEmployee string string string string "string option"
  | UpdateEmployee int string string string string "string option"
  | DeleteEmployee int

fun step :: "call \<Rightarrow> db \<Rightarrow> db" where
  "step (AdjustVacancy n d) s = snd (update_process_vacancy n d s)"
| "step (AddEmployee n e p c pn) s = snd (add_employee n e p c pn s)"
| "step (UpdateEmployee i n e p c pn) s = snd (update_employee i n e p c pn s)"
| "step (DeleteEmployee i) s = snd (delete_employee i s)"

fun run :: "call list \<Rightarrow> db \<Rightarrow> db" where
  "run [] s = s"
| "run (c # cs) s = run cs (step c s)"

section \<open>The selector of \<open>matching_engine.py\<close>\<close>

text \<open>
  A row of the \<open>process_data\<close> DataFrame, with its four columns.
  \<open>sort_values\<close> with \<open>ascending=False\<close> is modelled by the stable insertion
  sort \<^const>\<open>sort_key\<close> on the keys with their sign flipped; pandas leaves the order
  of rows with equal keys open for a single sort column, and no statement below depends
  on it.
\<close>

record process =
  Process_Name :: string
  Potential :: string
  Communication :: string
  Vacancy :: int

definition find_matching_process :: "process list \<Rightarrow> string \<Rightarrow> string \<Rightarrow> process option" where
  "find_matching_process process_data potential communication =
     (let matching_processes =
            filter (\<lambda>p. Potential p = potential \<and> Communication p = communication \<and> Vacancy p > 0)
              process_data;
          matching_processes =
            (if matching_processes = []
             then filter (\<lambda>p. Potential p = potential \<and> Vacancy p > 0) process_data
             else matching_processes);
          matching_processes = sort_key (\<lambda>p. - Vacancy p) matching_processes
      in case matching_processes of [] \<Rightarrow> None | p # _ \<Rightarrow> Some p)"

text \<open>The rows \<open>get_process_suggestions\<close> returns carry the added column
  \<open>relevance\<close>: a pair of the row and its relevance.\<close>

definition get_process_suggestions ::
  "process list \<Rightarrow> string \<Rightarrow> string \<Rightarrow> (process \<times> int) list" where
  "get_process_suggestions process_data potential communication =
     (let suggested_processes =
            filter (\<lambda>p. (Potential p = potential \<or> Communication p = communication) \<and> Vacancy p > 0)
              process_data;
          suggested_processes = map (\<lambda>p. (p, 0)) suggested_processes;
          suggested_processes =
            map (\<lambda>(p, r). (p, if Potential p = potential then r + 2 else r)) suggested_processes;
          suggested_processes =
            map (\<lambda>(p, r). (p, if Communication p = communication then r + 1 else r)) suggested_processes
      in sort_key (\<lambda>(p, r). (- r, - Vacancy p)) suggested_processes)"

section \<open>Notions used in the statements\<close>

text \<open>The two vacancy updates of the ledger, on the rows of the \<open>processes\<close> table:
  \<open>SET vacancy = CASE WHEN vacancy > 0 THEN vacancy - 1 ELSE 0 END WHERE process_name = n\<close>
  and \<open>SET vacancy = vacancy + 1 WHERE process_name = n\<close>.\<close>

definition decrement_rows :: "string \<Rightarrow> process_row list \<Rightarrow> process_row list" where
  "decrement_rows n rows =
     map (\<lambda>p. if proc_name p = n
               then p\<lparr>proc_vacancy := (if proc_vacancy p > 0 then proc_vacancy p - 1 else 0)\<rparr>
               else p) rows"

definition increment_rows :: "string \<Rightarrow> process_row list \<Rightarrow> process_row list" where
  "increment_rows n rows =
     map (\<lambda>p. if proc_name p = n then p\<lparr>proc_vacancy := proc_vacancy p + 1\<rparr> else p) rows"

text \<open>Every process has a vacancy of at least 0.\<close>

definition vacancies_nonneg :: "db \<Rightarrow> bool" where
  "vacancies_nonneg s = list_all (\<lambda>p. 0 \<le> proc_vacancy p) (processes s)"



text \<open>No two employees have equal normalized emails.\<close>

definition emails_unique :: "db \<Rightarrow> bool" where
  "emails_unique s = distinct (map (\<lambda>e. normalize_email (emp_email e)) (employees s))"

text \<open>What the \<open>employees\<close> table satisfies in every state the operations reach from an
  empty table: the primary key is unique, and every stored email is normalized and
  stored once.\<close>

definition employees_wf :: "db \<Rightarrow> bool" where
  "employees_wf s =
     (distinct (map emp_id (employees s)) \<and>
      distinct (map emp_email (employees s)) \<and>
      list_all (\<lambda>e. normalize_email (emp_email e) = emp_email e) (employees s))"


section \<open>Example data\<close>

text \<open>The catalog of the relaxation example: \<open>A\<close> matches the potential only and has
  the higher vacancy, \<open>B\<close> matches both attributes.\<close>

definition demo_catalog :: "process list" where
  "demo_catalog =
     [\<lparr>Process_Name = ''A'', Potential = ''Sales'', Communication = ''Excellent'', Vacancy = 3\<rparr>,
      \<lparr>Process_Name = ''B'', Potential = ''Sales'', Communication = ''Good'', Vacancy = 1\<rparr>]"

text \<open>A stored state: process \<open>B\<close> has no vacancy left because employee 1 holds its last
  slot; employee 2 still names a process that a later catalog no longer has.\<close>

definition demo_db :: db where
  "demo_db =
     \<lparr>processes =
        [\<lparr>proc_id = 1, proc_name = ''A'', proc_potential = ''Sales'',
          proc_communication = ''Excellent'', proc_vacancy = 3\<rparr>,
         \<lparr>proc_id = 2, proc_name = ''B'', proc_potential = ''Sales'',
          proc_communication = ''Good'', proc_vacancy = 0\<rparr>],
      employees =
        [\<lparr>emp_id = 1, emp_name = ''Eve'', emp_email = ''foo@x.com'', emp_potential = ''Sales'',
          emp_communication = ''Good'', emp_process_id = Some 2, emp_process_name = Some ''B''\<rparr>,
         \<lparr>emp_id = 2, emp_name = ''Sam'', emp_email = ''sam@x.com'', emp_potential = ''Service'',
          emp_communication = ''Good'', emp_process_id = None, emp_process_name = Some ''Gone''\<rparr>],
      process_seq = 2, employee_seq = 2\<rparr>"

text \<open>A sequence of calls of all four kinds, some of which fail.\<close>

definition demo_calls :: "call list" where
  "demo_calls =
     [AdjustVacancy ''A'' (- 7),
      AddEmployee ''Ann'' ''Ann@X.com'' ''Sales'' ''Good'' (Some ''B''),
      DeleteEmployee 1,
      AddEmployee ''Ann'' '' Ann@X.com'' ''Sales'' ''Good'' (Some ''B''),
      UpdateEmployee 3 ''Ann'' ''ann@x.com'' ''Sales'' ''Good'' (Some ''A''),
      UpdateEmployee 2 ''Sam'' ''sam@x.com'' ''Sales'' ''Good'' None]"

section \<open>SQL statements: basic facts\<close>

lemma fetchone_None: "(fetchone c rows = None) = (\<forall>r\<in>set rows. \<not> c r)"
proof (cases "filter c rows")
  case Nil
  then show ?thesis by (simp add: fetchone_def filter_empty_conv)
next
  case (Cons r rs)
  then have "r \<in> set (filter c rows)" by simp
  then have "\<exists>r\<in>set rows. c r" by auto
  with Cons show ?thesis by (simp add: fetchone_def)
qed

lemma fetchone_Some: "fetchone c rows = Some r \<Longrightarrow> r \<in> set rows \<and> c r"
proof -
  assume "fetchone c rows = Some r"
  then obtain rs where "filter c rows = r # rs"
    by (auto simp: fetchone_def split: list.splits)
  then have "r \<in> set (filter c rows)" by simp
  then show ?thesis by simp
qed


lemma fetchone_after_update:
  assumes "\<And>r. c (f r) = c r"
  shows "(fetchone c (map (\<lambda>r. if c r then f r else r) rows) = None) = (\<forall>r\<in>set rows. \<not> c r)"
  using assms by (auto simp: fetchone_None)

lemma fetchone_update_Some:
  assumes "\<And>r. c (f r) = c r" and "\<exists>r\<in>set rows. c r"
  shows "\<exists>y. fetchone c (map (\<lambda>r. if c r then f r else r) rows) = Some y"
proof -
  have "fetchone c (map (\<lambda>r. if c r then f r else r) rows) \<noteq> None"
    using assms by (simp add: fetchone_after_update)
  then show ?thesis by blast
qed

section \<open>The ledger operations, branch by branch\<close>

text \<open>Each operation as one case distinction on the stored state: the branches that
  return \<open>False\<close> leave the state as it was, and the ones the checks before them
  exclude (a failed vacancy update after a successful lookup, a UNIQUE violation after
  the duplicate check) are gone.\<close>

lemma reserve_vacancy_cases:
  "reserve_vacancy n w =
     (case fetchone (\<lambda>p. proc_name p = n) (processes w) of
        None \<Rightarrow> Inl (ProcessNotFound n, w)
      | Some r \<Rightarrow> if proc_vacancy r \<le> 0 then Inl (NoVacancy n, w)
                  else Inr (Some (proc_id r), w\<lparr>processes := decrement_rows n (processes w)\<rparr>))"
proof (cases "fetchone (\<lambda>p. proc_name p = n) (processes w)")
  case None
  then show ?thesis by (simp add: reserve_vacancy_def)
next
  case (Some r)
  from fetchone_Some[OF Some] have "filter (\<lambda>p. proc_name p = n) (processes w) \<noteq> []"
    by (auto simp: filter_empty_conv)
  with Some show ?thesis
    by (simp add: reserve_vacancy_def sql_update_def decrement_rows_def)
qed

lemma reserve_vacancy_Inl: "reserve_vacancy n w = Inl (m, w') \<Longrightarrow> w' = w"
  by (auto simp: reserve_vacancy_cases split: option.splits if_splits)

lemma reserve_vacancy_Inr:
  "reserve_vacancy n w = Inr (pid, w') \<Longrightarrow>
     w' = w\<lparr>processes := decrement_rows n (processes w)\<rparr> \<and>
     (\<exists>r. fetchone (\<lambda>p. proc_name p = n) (processes w) = Some r \<and> 0 < proc_vacancy r \<and> pid = Some (proc_id r))"
  by (auto simp: reserve_vacancy_cases split: option.splits if_splits)


lemma add_employee_result:
  "add_employee name email potential communication pn s =
     (let em = normalize_email email;
          i = next_rowid (employee_seq s) (map emp_id (employees s));
          row = (\<lambda>pid. \<lparr>emp_id = i, emp_name = name, emp_email = em,
                         emp_potential = potential, emp_communication = communication,
                         emp_process_id = pid, emp_process_name = pn\<rparr>)
      in if \<exists>x\<in>set (employees s). sql_lower (emp_email x) = sql_lower em
         then ((False, EmailExists), s)
         else if truthy pn
         then (case fetchone (\<lambda>p. proc_name p = str_of pn) (processes s) of
                 None \<Rightarrow> ((False, ProcessNotFound (str_of pn)), s)
               | Some r \<Rightarrow>
                   if proc_vacancy r \<le> 0 then ((False, NoVacancy (str_of pn)), s)
                   else ((True, EmployeeAdded),
                         s\<lparr>processes := decrement_rows (str_of pn) (processes s),
                           employees := employees s @ [row (Some (proc_id r))],
                           employee_seq := i\<rparr>))
         else ((True, EmployeeAdded),
               s\<lparr>employees := employees s @ [row None], employee_seq := i\<rparr>))"
proof (cases "\<exists>x\<in>set (employees s). sql_lower (emp_email x) = sql_lower (normalize_email email)")
  case True
  then show ?thesis
    by (simp add: add_employee_def Let_def filter_empty_conv rollback_def)
next
  case False
  then have nodup: "\<forall>x\<in>set (employees s). emp_email x \<noteq> normalize_email email"
    by auto
  show ?thesis
  proof (cases "truthy pn")
    case t: True
    show ?thesis
    proof (cases "fetchone (\<lambda>p. proc_name p = str_of pn) (processes s)")
      case None
      with False t show ?thesis
        by (simp add: add_employee_def Let_def filter_empty_conv rollback_def reserve_vacancy_cases)
    next
      case (Some r)
      with False t nodup show ?thesis
        by (simp add: add_employee_def Let_def filter_empty_conv rollback_def commit_def
            reserve_vacancy_cases)
    qed
  next
    case f: False
    with False nodup show ?thesis
      by (simp add: add_employee_def Let_def filter_empty_conv rollback_def commit_def)
  qed
qed

lemma delete_employee_result:
  "delete_employee i s =
     (case fetchone (\<lambda>e. emp_id e = i) (employees s) of
        None \<Rightarrow> ((False, EmployeeNotFound), s)
      | Some e \<Rightarrow>
          ((True, EmployeeDeleted (emp_process_name e)),
           s\<lparr>employees := filter (\<lambda>e. emp_id e \<noteq> i) (employees s),
             processes := (if truthy (emp_process_name e)
                           then increment_rows (str_of (emp_process_name e)) (processes s)
                           else processes s)\<rparr>))"
proof (cases "fetchone (\<lambda>e. emp_id e = i) (employees s)")
  case None
  then show ?thesis by (simp add: delete_employee_def rollback_def)
next
  case (Some e)
  from fetchone_Some[OF Some] have "filter (\<lambda>e. emp_id e = i) (employees s) \<noteq> []"
    by (auto simp: filter_empty_conv)
  with Some show ?thesis
    by (simp add: delete_employee_def sql_delete_def sql_update_def Let_def commit_def
        increment_rows_def)
qed


lemma update_employee_result_fits:
  assumes fits: "int64 i"
  shows "update_employee i name email potential communication pn s =
     (let em = normalize_email email;
          upd = (\<lambda>pid rows. map (\<lambda>e. if emp_id e = i
                     then e\<lparr>emp_name := name, emp_email := em, emp_potential := potential,
                            emp_communication := communication, emp_process_id := pid,
                            emp_process_name := pn\<rparr>
                     else e) rows)
      in if \<exists>x\<in>set (employees s). sql_lower (emp_email x) = sql_lower em \<and> emp_id x \<noteq> i
         then ((False, EmailExistsOther), s)
         else
           (case fetchone (\<lambda>e. emp_id e = i) (employees s) of
              None \<Rightarrow> ((False, EmployeeNotFound), s)
            | Some cur \<Rightarrow>
                if emp_process_name cur = pn
                then ((True, EmployeeUpdated),
                      s\<lparr>employees :=
                          upd (if truthy pn
                               then map_option proc_id
                                      (fetchone (\<lambda>p. proc_name p = str_of pn) (processes s))
                               else None) (employees s)\<rparr>)
                else
                  (let rows1 = (if truthy (emp_process_name cur)
                                then increment_rows (str_of (emp_process_name cur)) (processes s)
                                else processes s)
                   in if truthy pn
                      then (case fetchone (\<lambda>p. proc_name p = str_of pn) rows1 of
                              None \<Rightarrow> ((False, ProcessNotFound (str_of pn)), s)
                            | Some r \<Rightarrow>
                                if proc_vacancy r \<le> 0 then ((False, NoVacancy (str_of pn)), s)
                                else ((True, EmployeeUpdated),
                                      s\<lparr>processes := decrement_rows (str_of pn) rows1,
                                        employees := upd (Some (proc_id r)) (employees s)\<rparr>))
                      else ((True, EmployeeUpdated),
                            s\<lparr>processes := rows1, employees := upd None (employees s)\<rparr>))))"
proof (cases "\<exists>x\<in>set (employees s). sql_lower (emp_email x) = sql_lower (normalize_email email)
                \<and> emp_id x \<noteq> i")
  case True
  then have "fetchone (\<lambda>e. sql_lower (emp_email e) = sql_lower (normalize_email email) \<and> emp_id e \<noteq> i)
               (employees s) \<noteq> None"
    by (simp add: fits fetchone_None)
  with True show ?thesis
    by (simp add: fits update_employee_def Let_def rollback_def)
next
  case False
  then have f1: "fetchone (\<lambda>e. sql_lower (emp_email e) = sql_lower (normalize_email email) \<and> emp_id e \<noteq> i)
               (employees s) = None"
    by (simp add: fits fetchone_None)
  from False have nodup: "\<not> (\<exists>e\<in>set (employees s). emp_id e \<noteq> i \<and> emp_email e = normalize_email email)"
    by auto
  show ?thesis
  proof (cases "fetchone (\<lambda>e. emp_id e = i) (employees s)")
    case None
    with False f1 show ?thesis
      by (simp add: fits update_employee_def Let_def rollback_def)
  next
    case (Some cur)
    from fetchone_Some[OF Some] have ne: "filter (\<lambda>e. emp_id e = i) (employees s) \<noteq> []"
      by (auto simp: filter_empty_conv)
    show ?thesis
    proof (cases "emp_process_name cur = pn")
      case same: True
      with False f1 Some ne show ?thesis
        by (simp add: fits nodup update_employee_def Let_def commit_def sql_update_def)
    next
      case diff: False
      define rows1 where "rows1 = (if truthy (emp_process_name cur)
                                then increment_rows (str_of (emp_process_name cur)) (processes s)
                                else processes s)"
      define w where "w = (if truthy (emp_process_name cur)
                  then s\<lparr>processes := fst (sql_update (\<lambda>p. proc_name p = str_of (emp_process_name cur))
                                              (\<lambda>p. p\<lparr>proc_vacancy := proc_vacancy p + 1\<rparr>)
                                              (processes s))\<rparr>
                  else s)"
      have w: "w = s\<lparr>processes := rows1\<rparr>"
        by (simp add: fits w_def rows1_def sql_update_def increment_rows_def)
      have we: "employees w = employees s" by (simp add: fits w)
      show ?thesis
      proof (cases "truthy pn")
        case t: True
        show ?thesis
        proof (cases "fetchone (\<lambda>p. proc_name p = str_of pn) rows1")
          case None
          with False f1 Some diff t show ?thesis
            unfolding update_employee_def Let_def
            by (simp add: fits w_def[symmetric] reserve_vacancy_cases w rollback_def rows1_def[symmetric])
        next
          case r: (Some r)
          with False f1 Some diff t ne show ?thesis
            unfolding update_employee_def Let_def
            by (simp add: fits nodup w_def[symmetric] reserve_vacancy_cases w rollback_def commit_def
                rows1_def[symmetric] sql_update_def)
        qed
      next
        case f: False
        with False f1 Some diff ne show ?thesis
          unfolding update_employee_def Let_def
          by (simp add: fits nodup w_def[symmetric] w rollback_def commit_def rows1_def[symmetric] sql_update_def)
      qed
    qed
  qed
qed

lemma update_employee_result:
  "update_employee i name email potential communication pn s =
     (if \<not> int64 i then ((False, DatabaseError), s)
      else
     (let em = normalize_email email;
          upd = (\<lambda>pid rows. map (\<lambda>e. if emp_id e = i
                     then e\<lparr>emp_name := name, emp_email := em, emp_potential := potential,
                            emp_communication := communication, emp_process_id := pid,
                            emp_process_name := pn\<rparr>
                     else e) rows)
      in if \<exists>x\<in>set (employees s). sql_lower (emp_email x) = sql_lower em \<and> emp_id x \<noteq> i
         then ((False, EmailExistsOther), s)
         else
           (case fetchone (\<lambda>e. emp_id e = i) (employees s) of
              None \<Rightarrow> ((False, EmployeeNotFound), s)
            | Some cur \<Rightarrow>
                if emp_process_name cur = pn
                then ((True, EmployeeUpdated),
                      s\<lparr>employees :=
                          upd (if truthy pn
                               then map_option proc_id
                                      (fetchone (\<lambda>p. proc_name p = str_of pn) (processes s))
                               else None) (employees s)\<rparr>)
                else
                  (let rows1 = (if truthy (emp_process_name cur)
                                then increment_rows (str_of (emp_process_name cur)) (processes s)
                                else processes s)
                   in if truthy pn
                      then (case fetchone (\<lambda>p. proc_name p = str_of pn) rows1 of
                              None \<Rightarrow> ((False, ProcessNotFound (str_of pn)), s)
                            | Some r \<Rightarrow>
                                if proc_vacancy r \<le> 0 then ((False, NoVacancy (str_of pn)), s)
                                else ((True, EmployeeUpdated),
                                      s\<lparr>processes := decrement_rows (str_of pn) rows1,
                                        employees := upd (Some (proc_id r)) (employees s)\<rparr>))
                      else ((True, EmployeeUpdated),
                            s\<lparr>processes := rows1, employees := upd None (employees s)\<rparr>)))))"
proof (cases "int64 i")
  case True
  then show ?thesis by (simp only: update_employee_result_fits not_not if_False simp_thms)
next
  case False
  then show ?thesis by (simp add: update_employee_def Let_def rollback_def)
qed

section \<open>\<open>update_process_vacancy\<close>\<close>

lemma update_process_vacancy_cases:
  "update_process_vacancy n d s =
     (if \<not> int64 d then (Raised_OverflowError, s)
      else if \<forall>p\<in>set (processes s). proc_name p \<noteq> n then (Returned False, s)
      else (if \<exists>p\<in>set (processes s). proc_name p = n \<and>
                 (\<not> int64 (proc_vacancy p) \<or> (0 \<le> d \<and> \<not> int64 (proc_vacancy p + d)))
            then Floating_Point else Returned True,
            s\<lparr>processes := map (\<lambda>p. if proc_name p = n
                 then p\<lparr>proc_vacancy := (if d < 0 then max (proc_vacancy p + d) 0 else proc_vacancy p + d)\<rparr>
                 else p) (processes s)\<rparr>))"
proof -
  define R where "R = (\<exists>p\<in>set (processes s). proc_name p = n \<and>
                 (\<not> int64 (proc_vacancy p) \<or> (0 \<le> d \<and> \<not> int64 (proc_vacancy p + d))))"
  have goal: "update_process_vacancy n d s =
     (if \<not> int64 d then (Raised_OverflowError, s)
      else if \<forall>p\<in>set (processes s). proc_name p \<noteq> n then (Returned False, s)
      else (if R then Floating_Point else Returned True,
            s\<lparr>processes := map (\<lambda>p. if proc_name p = n
                 then p\<lparr>proc_vacancy := (if d < 0 then max (proc_vacancy p + d) 0 else proc_vacancy p + d)\<rparr>
                 else p) (processes s)\<rparr>))"
  proof (cases "int64 d")
    case False
    then show ?thesis by (simp add: update_process_vacancy_def)
  next
    case fits: True
    show ?thesis
    proof (cases "\<forall>p\<in>set (processes s). proc_name p \<noteq> n")
      case True
      with fits show ?thesis
        by (simp add: update_process_vacancy_def sql_update_def filter_empty_conv)
    next
      case False
      then have ex: "\<exists>p\<in>set (processes s). proc_name p = n" by simp
      then have ne: "filter (\<lambda>p. proc_name p = n) (processes s) \<noteq> []"
        by (simp add: filter_empty_conv)
      show ?thesis
      proof (cases "d < 0")
        case True
        have m: "\<And>v::int. (if v + d < 0 then 0 else v + d) = max (v + d) 0" by auto
        from ex have f: "fetchone (\<lambda>p. proc_name p = n)
            (map (\<lambda>r. if proc_name r = n then r\<lparr>proc_vacancy := max (proc_vacancy r + d) 0\<rparr> else r)
               (processes s)) \<noteq> None"
          by (simp add: fetchone_after_update)
        have "update_process_vacancy n d s =
                (if R then Floating_Point else Returned True,
                 s\<lparr>processes := map (\<lambda>r. if proc_name r = n
                      then r\<lparr>proc_vacancy := max (proc_vacancy r + d) 0\<rparr> else r) (processes s)\<rparr>)"
          unfolding update_process_vacancy_def R_def[symmetric]
          using fits ne True f by (simp add: sql_update_def m Let_def del: not_None_eq)
        with fits False True show ?thesis by simp
      next
        case dn: False
        from ex have f: "fetchone (\<lambda>p. proc_name p = n)
            (map (\<lambda>r. if proc_name r = n then r\<lparr>proc_vacancy := proc_vacancy r + d\<rparr> else r)
               (processes s)) \<noteq> None"
          by (simp add: fetchone_after_update)
        have "update_process_vacancy n d s =
                (if R then Floating_Point else Returned True,
                 s\<lparr>processes := map (\<lambda>r. if proc_name r = n
                      then r\<lparr>proc_vacancy := proc_vacancy r + d\<rparr> else r) (processes s)\<rparr>)"
          unfolding update_process_vacancy_def R_def[symmetric]
          using fits ne dn f by (simp add: sql_update_def Let_def del: not_None_eq)
        with fits False dn show ?thesis by simp
      qed
    qed
  qed
  then show ?thesis unfolding R_def .
qed




section \<open>\<open>find_matching_process\<close>\<close>

lemma sort_key_head_max:
  assumes "sort_key f xs = y # ys"
  shows "y \<in> set xs \<and> (\<forall>x\<in>set xs. f y \<le> f x)"
proof -
  have "y \<in> set (sort_key f xs)" using assms by simp
  then have m: "y \<in> set xs" by simp
  have "sorted (map f (sort_key f xs))" by (rule sorted_sort_key)
  with assms have "\<forall>x\<in>set ys. f y \<le> f x" by simp
  moreover have "set xs = insert y (set ys)"
    using assms by (metis list.simps(15) set_sort)
  ultimately show ?thesis using m by auto
qed

lemma first_of_sorted:
  assumes "cands \<noteq> []"
  shows "\<exists>p\<in>set cands.
           (case sort_key (\<lambda>p. - Vacancy p) cands of [] \<Rightarrow> None | p # _ \<Rightarrow> Some p) = Some p
           \<and> (\<forall>q\<in>set cands. Vacancy q \<le> Vacancy p)"
proof (cases "sort_key (\<lambda>p. - Vacancy p) cands")
  case Nil
  then have "length (sort_key (\<lambda>p. - Vacancy p) cands) = 0" by simp
  with assms show ?thesis by simp
next
  case (Cons y ys)
  from sort_key_head_max[OF Cons] Cons show ?thesis by auto
qed

text \<open>
  Claim C3. With \<open>exact\<close> the rows of the catalog that match potential and communication
  and have vacancy above 0, and \<open>relaxed\<close> the rows that match the potential and have
  vacancy above 0: if \<open>exact\<close> is not empty, \<open>find_matching_process\<close> returns a row of
  \<open>exact\<close> of maximal vacancy in \<open>exact\<close> (so an exact match wins over a potential-only
  match of higher vacancy); if \<open>exact\<close> is empty and \<open>relaxed\<close> is not, a row of
  \<open>relaxed\<close> of maximal vacancy in \<open>relaxed\<close>; if both are empty, nothing.
\<close>

theorem find_matching_process_relaxation:
  "(let exact = filter (\<lambda>p. Potential p = potential \<and> Communication p = communication
                             \<and> Vacancy p > 0) process_data;
        relaxed = filter (\<lambda>p. Potential p = potential \<and> Vacancy p > 0) process_data;
        res = find_matching_process process_data potential communication
    in (exact \<noteq> [] \<longrightarrow>
          (\<exists>p\<in>set exact. res = Some p \<and> (\<forall>q\<in>set exact. Vacancy q \<le> Vacancy p))) \<and>
       (exact = [] \<and> relaxed \<noteq> [] \<longrightarrow>
          (\<exists>p\<in>set relaxed. res = Some p \<and> (\<forall>q\<in>set relaxed. Vacancy q \<le> Vacancy p))) \<and>
       (exact = [] \<and> relaxed = [] \<longrightarrow> res = None))"
proof -
  define exact where "exact = filter (\<lambda>p. Potential p = potential \<and> Communication p = communication
                             \<and> Vacancy p > 0) process_data"
  define relaxed where "relaxed = filter (\<lambda>p. Potential p = potential \<and> Vacancy p > 0) process_data"
  define res where "res = find_matching_process process_data potential communication"
  have r: "res = (case sort_key (\<lambda>p. - Vacancy p) (if exact = [] then relaxed else exact) of
                    [] \<Rightarrow> None | p # _ \<Rightarrow> Some p)"
    by (simp add: res_def find_matching_process_def exact_def relaxed_def Let_def)
  have 1: "exact \<noteq> [] \<longrightarrow>
            (\<exists>p\<in>set exact. res = Some p \<and> (\<forall>q\<in>set exact. Vacancy q \<le> Vacancy p))"
    using first_of_sorted[of exact] by (simp add: r)
  have 2: "exact = [] \<and> relaxed \<noteq> [] \<longrightarrow>
            (\<exists>p\<in>set relaxed. res = Some p \<and> (\<forall>q\<in>set relaxed. Vacancy q \<le> Vacancy p))"
    using first_of_sorted[of relaxed] by (simp add: r)
  have 3: "exact = [] \<and> relaxed = [] \<longrightarrow> res = None"
    by (simp add: r)
  from 1 2 3 show ?thesis
    unfolding Let_def exact_def relaxed_def res_def by blast
qed

theorem find_matching_process_relaxation_witness:
  "find_matching_process demo_catalog ''Sales'' ''Good'' = Some (demo_catalog ! 1) \<and>
   find_matching_process [demo_catalog ! 0] ''Sales'' ''Good'' = Some (demo_catalog ! 0) \<and>
   find_matching_process demo_catalog ''Support'' ''Good'' = None"
  using find_matching_process_relaxation
          [where process_data = demo_catalog and potential = "''Sales''" and communication = "''Good''"]
    find_matching_process_relaxation
          [where process_data = "[demo_catalog ! 0]" and potential = "''Sales''"
             and communication = "''Good''"]
    find_matching_process_relaxation
          [where process_data = demo_catalog and potential = "''Support''" and communication = "''Good''"]
  by (simp add: demo_catalog_def Let_def)

section \<open>\<open>get_process_suggestions\<close>\<close>

lemma get_process_suggestions_alt:
  "get_process_suggestions process_data potential communication =
    sort_key (\<lambda>(p, r). (- r, - Vacancy p))
      (map (\<lambda>p. (p, (if Potential p = potential then 2 else 0)
                    + (if Communication p = communication then 1 else (0::int))))
         (filter (\<lambda>p. (Potential p = potential \<or> Communication p = communication) \<and> Vacancy p > 0)
            process_data))"
  unfolding get_process_suggestions_def Let_def
  by (rule arg_cong[where f="sort_key _"]) (simp add: comp_def)

lemma sorted_wrt_sort_key_lex:
  "sorted_wrt (\<lambda>(p, r) (q, r'). r > r' \<or> (r = r' \<and> Vacancy p \<ge> Vacancy q))
     (sort_key (\<lambda>(p, r::int). (- r, - Vacancy p)) xs)"
proof -
  have "sorted (map (\<lambda>(p, r). (- r, - Vacancy p)) (sort_key (\<lambda>(p, r::int). (- r, - Vacancy p)) xs))"
    by (rule sorted_sort_key)
  then have "sorted_wrt (\<lambda>a b. (case a of (p, r) \<Rightarrow> (- r, - Vacancy p))
                              \<le> (case b of (p, r) \<Rightarrow> (- r, - Vacancy p)))
      (sort_key (\<lambda>(p, r::int). (- r, - Vacancy p)) xs)"
    by (simp add: sorted_map)
  then show ?thesis
    by (rule sorted_wrt_mono_rel[rotated]) (auto simp: less_eq_prod_def)
qed

text \<open>
  Claim C9. \<open>get_process_suggestions\<close> returns exactly the rows of the catalog with
  vacancy above 0 whose potential or communication matches (as a multiset: each such row
  once per occurrence, and no other row), each with relevance 2 for a matching potential
  plus 1 for a matching communication, in an order where relevance never increases and,
  among rows of equal relevance, vacancy never increases.
\<close>

theorem get_process_suggestions_ranked:
  "mset (map fst (get_process_suggestions process_data potential communication)) =
     mset (filter (\<lambda>p. (Potential p = potential \<or> Communication p = communication) \<and> Vacancy p > 0)
             process_data) \<and>
   (\<forall>(p, r)\<in>set (get_process_suggestions process_data potential communication).
      r = (if Potential p = potential then 2 else 0)
          + (if Communication p = communication then 1 else 0)) \<and>
   sorted_wrt (\<lambda>(p, r) (q, r'). r > r' \<or> (r = r' \<and> Vacancy p \<ge> Vacancy q))
     (get_process_suggestions process_data potential communication)"
proof (intro conjI)
  show "mset (map fst (get_process_suggestions process_data potential communication)) =
     mset (filter (\<lambda>p. (Potential p = potential \<or> Communication p = communication) \<and> Vacancy p > 0)
             process_data)"
  proof -
    have "mset (map fst (sort_key k xs)) = mset (map fst xs)"
      for k :: "process \<times> int \<Rightarrow> int \<times> int" and xs
      by (metis mset_map mset_sort)
    moreover have "map fst (map (\<lambda>p. (p, g p)) ys) = ys" for g :: "process \<Rightarrow> int" and ys
      by (induction ys) simp_all
    ultimately show ?thesis
      unfolding get_process_suggestions_alt by (simp only:)
  qed
  show "\<forall>(p, r)\<in>set (get_process_suggestions process_data potential communication).
      r = (if Potential p = potential then 2 else 0)
          + (if Communication p = communication then 1 else 0)"
    unfolding get_process_suggestions_alt by auto
  show "sorted_wrt (\<lambda>(p, r) (q, r'). r > r' \<or> (r = r' \<and> Vacancy p \<ge> Vacancy q))
     (get_process_suggestions process_data potential communication)"
    unfolding get_process_suggestions_alt by (rule sorted_wrt_sort_key_lex)
qed

theorem get_process_suggestions_ranked_witness:
  "map fst (get_process_suggestions demo_catalog ''Service'' ''Excellent'') = [demo_catalog ! 0] \<and>
   map snd (get_process_suggestions demo_catalog ''Service'' ''Excellent'') = [1]"
proof -
  let ?r = "get_process_suggestions demo_catalog ''Service'' ''Excellent''"
  have f: "filter (\<lambda>p. (Potential p = ''Service'' \<or> Communication p = ''Excellent'') \<and> Vacancy p > 0)
             demo_catalog = [demo_catalog ! 0]"
    by (simp add: demo_catalog_def)
  note T = get_process_suggestions_ranked
         [where process_data = demo_catalog and potential = "''Service''"
            and communication = "''Excellent''", unfolded f]
  from T have m: "mset (map fst ?r) = {#demo_catalog ! 0#}"
    by simp
  from T have rel: "\<forall>(p, r)\<in>set ?r. r = (if Potential p = ''Service'' then 2 else 0)
          + (if Communication p = ''Excellent'' then 1 else 0)"
    by blast
  from m have 1: "map fst ?r = [demo_catalog ! 0]"
    by (metis mset.simps(1) mset.simps(2) mset_single_iff_right add_mset_eq_single)
  then obtain r where r: "?r = [(demo_catalog ! 0, r)]"
    by (cases ?r) auto
  with rel have "r = 1" by (simp add: demo_catalog_def)
  with r 1 show ?thesis by simp
qed

section \<open>Vacancies stay non-negative\<close>

lemma nonneg_decrement_rows:
  "list_all (\<lambda>p. 0 \<le> proc_vacancy p) rows \<Longrightarrow>
   list_all (\<lambda>p. 0 \<le> proc_vacancy p) (decrement_rows n rows)"
  by (induction rows) (simp_all add: decrement_rows_def)

lemma nonneg_increment_rows:
  "list_all (\<lambda>p. 0 \<le> proc_vacancy p) rows \<Longrightarrow>
   list_all (\<lambda>p. 0 \<le> proc_vacancy p) (increment_rows n rows)"
  by (induction rows) (simp_all add: increment_rows_def)

lemma nonneg_update_process_vacancy:
  assumes "vacancies_nonneg s"
  shows "vacancies_nonneg (snd (update_process_vacancy n d s))"
proof -
  have "list_all (\<lambda>p. 0 \<le> proc_vacancy p) rows \<Longrightarrow>
        list_all (\<lambda>p. 0 \<le> proc_vacancy p)
          (map (\<lambda>p. if proc_name p = n
                 then p\<lparr>proc_vacancy := (if d < 0 then max (proc_vacancy p + d) 0 else proc_vacancy p + d)\<rparr>
                 else p) rows)" for rows
    by (induction rows) simp_all
  from this[of "processes s"] assms show ?thesis
    by (simp add: update_process_vacancy_cases vacancies_nonneg_def)
qed

lemma nonneg_add_employee:
  assumes "vacancies_nonneg s"
  shows "vacancies_nonneg (snd (add_employee name email potential communication pn s))"
  using assms nonneg_decrement_rows[of "processes s" "str_of pn"]
  by (simp add: add_employee_result vacancies_nonneg_def Let_def split: option.split)

lemma nonneg_delete_employee:
  assumes "vacancies_nonneg s"
  shows "vacancies_nonneg (snd (delete_employee i s))"
  using assms nonneg_increment_rows[of "processes s"]
  by (simp add: delete_employee_result vacancies_nonneg_def split: option.split)

lemma nonneg_update_employee:
  assumes "vacancies_nonneg s"
  shows "vacancies_nonneg (snd (update_employee i name email potential communication pn s))"
  using assms
  by (simp add: update_employee_result vacancies_nonneg_def Let_def nonneg_increment_rows
      nonneg_decrement_rows split: option.split)

lemma nonneg_step: "vacancies_nonneg s \<Longrightarrow> vacancies_nonneg (step c s)"
  by (cases c)
    (simp_all add: nonneg_update_process_vacancy nonneg_add_employee nonneg_update_employee
       nonneg_delete_employee)

lemma nonneg_run: "vacancies_nonneg s \<Longrightarrow> vacancies_nonneg (run cs s)"
  by (induction cs arbitrary: s) (simp_all add: nonneg_step)

text \<open>
  Claim C1. From a stored state in which every process has a vacancy of at least 0, after
  every call of every sequence of \<open>update_process_vacancy\<close>, \<open>add_employee\<close>,
  \<open>update_employee\<close> and \<open>delete_employee\<close> calls (whatever their arguments and
  whether they succeed or fail), every process still has a vacancy of at least 0.
\<close>

theorem vacancy_never_negative:
  assumes "vacancies_nonneg s"
  shows "\<forall>k\<le>length cs. vacancies_nonneg (run (take k cs) s)"
  using assms by (simp add: nonneg_run)

theorem vacancy_never_negative_witness:
  "vacancies_nonneg demo_db \<and>
   vacancies_nonneg (run (take 3 demo_calls) demo_db) \<and>
   vacancies_nonneg (run (take (length demo_calls) demo_calls) demo_db)"
proof -
  have h: "vacancies_nonneg demo_db"
    by (simp add: vacancies_nonneg_def demo_db_def)
  have k: "3 \<le> length demo_calls"
    by (simp add: demo_calls_def)
  from vacancy_never_negative [OF h, of demo_calls] h k show ?thesis
    by blast
qed

section \<open>\<open>update_employee\<close>: a rejected edit changes nothing\<close>

lemma filter_increment_other:
  "o' \<noteq> n \<Longrightarrow> filter (\<lambda>p. proc_name p = n) (increment_rows o' rows) = filter (\<lambda>p. proc_name p = n) rows"
  by (induction rows) (simp_all add: increment_rows_def)

lemma fetchone_increment_other:
  "o' \<noteq> n \<Longrightarrow> fetchone (\<lambda>p. proc_name p = n) (increment_rows o' rows) = fetchone (\<lambda>p. proc_name p = n) rows"
  by (simp add: fetchone_def filter_increment_other)



text \<open>
  Claim C2. \<open>update_employee\<close> is called with a process \<open>pn\<close> that is given
  (\<open>truthy pn\<close>), is new for the employee (not the process the employee holds now) and
  fails validation: the catalog has no process of that name, or the one it has has a
  vacancy of 0 or less. Then the call returns \<open>False\<close> with a message, and the stored
  state after the call is the stored state before it: the employee's assigned process,
  the old process's vacancy and the new process's vacancy are all as before, although
  the working state had the old process's vacancy raised by 1 when the validation failed.
  The message is "Process ... not found" or "No vacancy available in ..." unless an
  earlier step (binding an id outside the 64-bit range, duplicate email, unknown
  employee) already failed.
\<close>

theorem update_employee_rejected_edit:
  assumes new: "truthy pn"
    and differs: "\<forall>cur. fetchone (\<lambda>e. emp_id e = i) (employees s) = Some cur \<longrightarrow> emp_process_name cur \<noteq> pn"
    and invalid: "\<forall>r. fetchone (\<lambda>p. proc_name p = str_of pn) (processes s) = Some r \<longrightarrow> proc_vacancy r \<le> 0"
  shows "update_employee i name email potential communication pn s =
           ((False,
             if \<not> int64 i then DatabaseError
             else if \<exists>x\<in>set (employees s). sql_lower (emp_email x) = sql_lower (normalize_email email) \<and> emp_id x \<noteq> i
             then EmailExistsOther
             else if fetchone (\<lambda>e. emp_id e = i) (employees s) = None then EmployeeNotFound
             else if fetchone (\<lambda>p. proc_name p = str_of pn) (processes s) = None
             then ProcessNotFound (str_of pn)
             else NoVacancy (str_of pn)), s)"
proof (cases "int64 i")
  case False
  then show ?thesis by (simp add: update_employee_result)
next
  case fits: True
  show ?thesis
  proof (cases "\<exists>x\<in>set (employees s). sql_lower (emp_email x) = sql_lower (normalize_email email)
                  \<and> emp_id x \<noteq> i")
    case True
    with fits show ?thesis by (simp add: update_employee_result Let_def)
  next
    case nc: False
    show ?thesis
    proof (cases "fetchone (\<lambda>e. emp_id e = i) (employees s)")
      case None
      with fits nc show ?thesis by (simp add: update_employee_result Let_def)
    next
      case (Some cur)
      with differs have d: "emp_process_name cur \<noteq> pn" by simp
      define rows1 where "rows1 = (if truthy (emp_process_name cur)
                                    then increment_rows (str_of (emp_process_name cur)) (processes s)
                                    else processes s)"
      have "str_of (emp_process_name cur) \<noteq> str_of pn" if "truthy (emp_process_name cur)"
        using that d new by (cases "emp_process_name cur"; cases pn) simp_all
      then have same: "fetchone (\<lambda>p. proc_name p = str_of pn) rows1
                     = fetchone (\<lambda>p. proc_name p = str_of pn) (processes s)"
        by (simp add: rows1_def fetchone_increment_other)
      show ?thesis
      proof (cases "fetchone (\<lambda>p. proc_name p = str_of pn) (processes s)")
        case n: None
        with fits nc Some d new same show ?thesis
          by (simp add: update_employee_result Let_def rows1_def[symmetric])
      next
        case r: (Some r)
        with invalid have "proc_vacancy r \<le> 0" by simp
        with fits nc r Some d new same show ?thesis
          by (simp add: update_employee_result Let_def rows1_def[symmetric])
      qed
    qed
  qed
qed

theorem update_employee_rejected_edit_witness:
  "update_employee 2 ''Sam'' ''sam@x.com'' ''Service'' ''Good'' (Some ''B'') demo_db
     = ((False, NoVacancy ''B''), demo_db) \<and>
   update_employee 1 ''Eve'' ''foo@x.com'' ''Sales'' ''Good'' (Some ''Z'') demo_db
     = ((False, ProcessNotFound ''Z''), demo_db)"
  using update_employee_rejected_edit [of "Some ''B''" 2 demo_db "''Sam''" "''sam@x.com''" "''Service''" "''Good''"]
    update_employee_rejected_edit [of "Some ''Z''" 1 demo_db "''Eve''" "''foo@x.com''" "''Sales''" "''Good''"]
  by (simp add: demo_db_def fetchone_def normalize_email_def py_strip_def py_lower_def sql_lower_def
      py_lower_char_def sql_lower_char_def py_isspace_def int64_def)

section \<open>\<open>update_employee\<close>: unknown employee\<close>

text \<open>
  Claim C4, amended. \<open>update_employee\<close> checks the email before it looks the employee
  up. For an employee id that is not stored the call always fails and leaves the stored
  state unchanged. For an id within the signed 64-bit range the message is "Employee not
  found" unless the normalized email equals (under SQLite's \<open>LOWER\<close>) the email of a
  stored employee, in which case the message is "Email already exists for another
  employee"; for an id outside that range, which SQLite cannot bind, the message is
  "Database error".
\<close>

theorem update_employee_absent_id:
  assumes "fetchone (\<lambda>e. emp_id e = i) (employees s) = None"
  shows "update_employee i name email potential communication pn s =
           ((False,
             if \<not> int64 i then DatabaseError
             else if \<exists>x\<in>set (employees s). sql_lower (emp_email x) = sql_lower (normalize_email email)
             then EmailExistsOther else EmployeeNotFound), s)"
proof -
  from assms have "\<forall>x\<in>set (employees s). emp_id x \<noteq> i"
    by (simp add: fetchone_None)
  then have "(\<exists>x\<in>set (employees s). sql_lower (emp_email x) = sql_lower (normalize_email email) \<and> emp_id x \<noteq> i)
           = (\<exists>x\<in>set (employees s). sql_lower (emp_email x) = sql_lower (normalize_email email))"
    by auto
  with assms show ?thesis
    by (simp add: update_employee_result Let_def)
qed

theorem update_employee_absent_id_witness:
  "update_employee 7 ''Eve'' ''FOO@x.com'' ''Sales'' ''Good'' None demo_db
     = ((False, EmailExistsOther), demo_db) \<and>
   update_employee 7 ''Eve'' ''new@x.com'' ''Sales'' ''Good'' None demo_db
     = ((False, EmployeeNotFound), demo_db) \<and>
   update_employee 9223372036854775808 ''Eve'' ''new@x.com'' ''Sales'' ''Good'' None demo_db
     = ((False, DatabaseError), demo_db)"
proof -
  have f: "fetchone (\<lambda>e. emp_id e = 7) (employees demo_db) = None"
    by code_simp
  have g: "fetchone (\<lambda>e. emp_id e = 9223372036854775808) (employees demo_db) = None"
    by (simp add: demo_db_def fetchone_def)
  have i: "int64 7" "\<not> int64 9223372036854775808"
    by (simp_all add: int64_def)
  have c1: "\<exists>x\<in>set (employees demo_db). sql_lower (emp_email x) = sql_lower (normalize_email ''FOO@x.com'')"
    by code_simp
  have c2: "\<not> (\<exists>x\<in>set (employees demo_db). sql_lower (emp_email x) = sql_lower (normalize_email ''new@x.com''))"
    by code_simp
  from update_employee_absent_id [OF f, of "''Eve''" "''FOO@x.com''" "''Sales''" "''Good''" None]
    update_employee_absent_id [OF f, of "''Eve''" "''new@x.com''" "''Sales''" "''Good''" None]
    update_employee_absent_id [OF g, of "''Eve''" "''new@x.com''" "''Sales''" "''Good''" None]
    c1 c2 i
  show ?thesis by simp
qed

text \<open>The claim as written (an unknown id always gives "Employee not found") fails when
  the email collides: id 7 is not stored, and the answer is the duplicate-email message.\<close>

theorem update_employee_absent_id_counterexample:
  "7 \<notin> set (map emp_id (employees demo_db)) \<and>
   fst (update_employee 7 ''Eve'' ''FOO@x.com'' ''Sales'' ''Good'' None demo_db) = (False, EmailExistsOther) \<and>
   fst (update_employee 7 ''Eve'' ''FOO@x.com'' ''Sales'' ''Good'' None demo_db) \<noteq> (False, EmployeeNotFound)"
  by code_simp

section \<open>\<open>delete_employee\<close> releases the slot\<close>



section \<open>\<open>update_employee\<close>: same process, gone from the catalog\<close>

text \<open>
  Claim C10. \<open>update_employee\<close> is called for a stored employee with the process the
  employee already holds, and the catalog has no process of that name. If the email does
  not collide with another employee's, the call succeeds (no "Process ... not found"), the
  catalog is unchanged, and the employee's row gets the new fields with the same process
  name and no process id. This is so for every id within the signed 64-bit range, as
  every id SQLite stores is; an id outside it cannot be bound and the call returns
  "Database error" with the state unchanged.
\<close>

theorem update_employee_same_process_absent:
  assumes found: "fetchone (\<lambda>x. emp_id x = i) (employees s) = Some cur"
    and same: "emp_process_name cur = pn"
    and absent: "fetchone (\<lambda>p. proc_name p = str_of pn) (processes s) = None"
    and nodup: "\<forall>x\<in>set (employees s). emp_id x \<noteq> i \<longrightarrow>
                  sql_lower (emp_email x) \<noteq> sql_lower (normalize_email email)"
  shows "(int64 i \<longrightarrow>
          fst (update_employee i name email potential communication pn s) = (True, EmployeeUpdated) \<and>
          processes (snd (update_employee i name email potential communication pn s)) = processes s \<and>
          employees (snd (update_employee i name email potential communication pn s)) =
            map (\<lambda>e. if emp_id e = i
                      then e\<lparr>emp_name := name, emp_email := normalize_email email,
                             emp_potential := potential, emp_communication := communication,
                             emp_process_id := None, emp_process_name := pn\<rparr>
                      else e) (employees s)) \<and>
         (\<not> int64 i \<longrightarrow>
          update_employee i name email potential communication pn s = ((False, DatabaseError), s))"
proof -
  from nodup have a: "\<not> (\<exists>x\<in>set (employees s). sql_lower (emp_email x) = sql_lower (normalize_email email) \<and> emp_id x \<noteq> i)"
    by auto
  show ?thesis
    using found same absent
    by (simp add: update_employee_result Let_def a)
qed

theorem update_employee_same_process_absent_witness:
  "fst (update_employee 2 ''Sam'' ''Sam@X.com'' ''Sales'' ''Good'' (Some ''Gone'') demo_db)
     = (True, EmployeeUpdated) \<and>
   processes (snd (update_employee 2 ''Sam'' ''Sam@X.com'' ''Sales'' ''Good'' (Some ''Gone'') demo_db))
     = processes demo_db \<and>
   map emp_process_name (employees (snd (update_employee 2 ''Sam'' ''Sam@X.com'' ''Sales'' ''Good'' (Some ''Gone'') demo_db)))
     = [Some ''B'', Some ''Gone'']"
proof -
  have f: "fetchone (\<lambda>x. emp_id x = 2) (employees demo_db) = Some (employees demo_db ! 1)"
    by (simp add: demo_db_def fetchone_def)
  have p: "emp_process_name (employees demo_db ! 1) = Some ''Gone''"
    by (simp add: demo_db_def)
  have a: "fetchone (\<lambda>p. proc_name p = str_of (Some ''Gone'')) (processes demo_db) = None"
    by (simp add: demo_db_def fetchone_def)
  have n: "\<forall>x\<in>set (employees demo_db). emp_id x \<noteq> 2 \<longrightarrow>
             sql_lower (emp_email x) \<noteq> sql_lower (normalize_email ''Sam@X.com'')"
    by code_simp
  have i: "int64 2" by (simp add: int64_def)
  note T = update_employee_same_process_absent [OF f p a n, of "''Sam''" "''Sales''" "''Good''",
      THEN conjunct1, rule_format, OF i]
  from T have 3: "map emp_process_name (employees (snd (update_employee 2 ''Sam'' ''Sam@X.com'' ''Sales'' ''Good'' (Some ''Gone'') demo_db)))
     = [Some ''B'', Some ''Gone'']"
    by (simp add: demo_db_def)
  from T 3 show ?thesis by blast
qed

section \<open>Email normalization\<close>

lemma py_lower_char_idem: "py_lower_char (py_lower_char c) = py_lower_char c"
  by (simp add: py_lower_char_def Let_def)

lemma py_isspace_lower: "py_isspace (py_lower_char c) = py_isspace c"
  by (simp add: py_lower_char_def py_isspace_def Let_def)

lemma dropWhile_space_lower:
  "dropWhile py_isspace (map py_lower_char xs) = map py_lower_char (dropWhile py_isspace xs)"
  by (induction xs) (simp_all add: py_isspace_lower)

lemma py_strip_lower: "py_strip (py_lower s) = py_lower (py_strip s)"
  by (simp add: py_strip_def py_lower_def dropWhile_space_lower rev_map)

lemma dropWhile_idem: "dropWhile P (dropWhile P xs) = dropWhile P xs"
  by (induction xs) simp_all

lemma dropWhile_no_lead: "xs = [] \<or> \<not> P (hd xs) \<Longrightarrow> dropWhile P xs = xs"
  by (cases xs) auto

lemma rev_dropWhile_rev_prefix:
  "rev (dropWhile P (rev ys)) @ rev (takeWhile P (rev ys)) = ys"
proof -
  have "rev (takeWhile P (rev ys) @ dropWhile P (rev ys)) = ys"
    by (simp only: takeWhile_dropWhile_id rev_rev_ident)
  then show ?thesis by (simp only: rev_append)
qed

lemma dropWhile_rev_dropWhile:
  "dropWhile P (rev (dropWhile P (rev (dropWhile P xs)))) = rev (dropWhile P (rev (dropWhile P xs)))"
proof -
  define ys where "ys = dropWhile P xs"
  define zs where "zs = rev (dropWhile P (rev ys))"
  have ys: "ys = [] \<or> \<not> P (hd ys)"
    unfolding ys_def by (cases "dropWhile P xs = []") (simp_all add: hd_dropWhile)
  have pre: "zs @ rev (takeWhile P (rev ys)) = ys"
    unfolding zs_def by (rule rev_dropWhile_rev_prefix)
  have "zs = [] \<or> \<not> P (hd zs)"
  proof (cases "zs = []")
    case True
    then show ?thesis by simp
  next
    case False
    then have "hd ys = hd zs" using pre by (metis hd_append2)
    moreover from False pre have "ys \<noteq> []" by auto
    ultimately show ?thesis using ys by simp
  qed
  then have "dropWhile P zs = zs" by (rule dropWhile_no_lead)
  then show ?thesis by (simp add: zs_def ys_def)
qed

lemma py_strip_idem: "py_strip (py_strip s) = py_strip s"
  by (simp add: py_strip_def dropWhile_rev_dropWhile dropWhile_idem)

lemma py_lower_idem: "py_lower (py_lower s) = py_lower s"
  by (simp add: py_lower_def py_lower_char_idem)

lemma normalize_email_idem: "normalize_email (normalize_email e) = normalize_email e"
  by (simp add: normalize_email_def py_strip_lower py_strip_idem py_lower_idem)

section \<open>The \<open>employees\<close> table stays well-formed\<close>

lemma foldr_max_upper: "\<forall>i\<in>set ids. i \<le> foldr max ids (seq::int)"
  by (induction ids) auto

lemma next_rowid_fresh: "\<forall>x\<in>set rows. emp_id x \<noteq> next_rowid seq (map emp_id rows)"
proof
  fix x assume "x \<in> set rows"
  then have "emp_id x \<in> set (map emp_id rows)" by simp
  with foldr_max_upper have "emp_id x \<le> foldr max (map emp_id rows) seq" by blast
  then show "emp_id x \<noteq> next_rowid seq (map emp_id rows)"
    by (simp add: next_rowid_def)
qed

lemma wf_rows_append:
  assumes "distinct (map emp_id rows)" "distinct (map emp_email rows)"
    "list_all (\<lambda>e. normalize_email (emp_email e) = emp_email e) rows"
    "\<forall>x\<in>set rows. emp_id x \<noteq> emp_id r" "\<forall>x\<in>set rows. emp_email x \<noteq> emp_email r"
    "normalize_email (emp_email r) = emp_email r"
  shows "distinct (map emp_id (rows @ [r])) \<and> distinct (map emp_email (rows @ [r])) \<and>
         list_all (\<lambda>e. normalize_email (emp_email e) = emp_email e) (rows @ [r])"
  using assms by auto

lemma wf_rows_update:
  assumes "distinct (map emp_id rows)" "distinct (map emp_email rows)"
    "list_all (\<lambda>e. normalize_email (emp_email e) = emp_email e) rows"
    "\<forall>x\<in>set rows. emp_id x \<noteq> i \<longrightarrow> emp_email x \<noteq> em"
    "normalize_email em = em"
    "\<And>e. emp_id (f e) = emp_id e" "\<And>e. emp_email (f e) = em"
  shows "distinct (map emp_id (map (\<lambda>e. if emp_id e = i then f e else e) rows)) \<and>
         distinct (map emp_email (map (\<lambda>e. if emp_id e = i then f e else e) rows)) \<and>
         list_all (\<lambda>e. normalize_email (emp_email e) = emp_email e)
           (map (\<lambda>e. if emp_id e = i then f e else e) rows)"
  using assms(1-4)
proof (induction rows)
  case Nil
  then show ?case by simp
next
  case (Cons x xs)
  let ?g = "\<lambda>e. if emp_id e = i then f e else e"
  from Cons have IH: "distinct (map emp_id (map ?g xs))" "distinct (map emp_email (map ?g xs))"
    "list_all (\<lambda>e. normalize_email (emp_email e) = emp_email e) (map ?g xs)"
    by simp_all
  have ids: "map emp_id (map ?g ys) = map emp_id ys" for ys
    by (induction ys) (simp_all add: assms(6))
  from Cons.prems have idx: "\<forall>y\<in>set xs. emp_id y \<noteq> emp_id x"
    by (auto simp: image_iff)
  from Cons.prems have emx: "\<forall>y\<in>set xs. emp_email y \<noteq> emp_email x"
    by (auto simp: image_iff)
  from Cons.prems have other: "\<forall>y\<in>set xs. emp_id y \<noteq> i \<longrightarrow> emp_email y \<noteq> em"
    by simp
  from Cons.prems have dx: "distinct (map emp_id xs)" "distinct (map emp_email xs)"
    "list_all (\<lambda>e. normalize_email (emp_email e) = emp_email e) xs"
    "normalize_email (emp_email x) = emp_email x"
    by simp_all
  show ?case
  proof (cases "emp_id x = i")
    case True
    with idx have "\<forall>y\<in>set xs. emp_id y \<noteq> i" by simp
    then have same: "map ?g xs = xs" by (induction xs) simp_all
    from True idx other have "\<forall>y\<in>set xs. emp_email y \<noteq> em" by simp
    then have "em \<notin> set (map emp_email xs)" by auto
    moreover from idx have "emp_id x \<notin> set (map emp_id xs)" by auto
    ultimately show ?thesis
      using True dx same by (simp add: assms(5,6,7))
  next
    case False
    from False Cons.prems have ne: "emp_email x \<noteq> em" by simp
    have q: "emp_email (?g z) \<noteq> emp_email x" if "z \<in> set xs" for z
    proof (cases "emp_id z = i")
      case True
      with ne show ?thesis by (simp add: assms(7))
    next
      case False
      with that emx show ?thesis by simp
    qed
    have "emp_email x \<notin> set (map emp_email (map ?g xs))"
    proof
      assume "emp_email x \<in> set (map emp_email (map ?g xs))"
      then have "emp_email x \<in> set (map (\<lambda>z. emp_email (?g z)) xs)"
        by (simp only: map_map comp_def)
      then obtain z where "z \<in> set xs" "emp_email x = emp_email (?g z)"
        unfolding set_map by (rule imageE)
      with q show False by metis
    qed
    moreover from idx have "emp_id x \<notin> set (map emp_id xs)" by auto
    ultimately show ?thesis
      using False dx IH ids[of xs] by simp
  qed
qed

lemma add_employee_shape:
  "(\<not> fst (fst (add_employee name email potential communication pn s)) \<and>
    snd (add_employee name email potential communication pn s) = s) \<or>
   (fst (add_employee name email potential communication pn s) = (True, EmployeeAdded) \<and>
    (\<forall>x\<in>set (employees s). sql_lower (emp_email x) \<noteq> sql_lower (normalize_email email)) \<and>
    (\<exists>pid. employees (snd (add_employee name email potential communication pn s)) =
       employees s @ [\<lparr>emp_id = next_rowid (employee_seq s) (map emp_id (employees s)),
                        emp_name = name, emp_email = normalize_email email,
                        emp_potential = potential, emp_communication = communication,
                        emp_process_id = pid, emp_process_name = pn\<rparr>]) \<and>
    processes (snd (add_employee name email potential communication pn s)) =
      (if truthy pn then decrement_rows (str_of pn) (processes s) else processes s) \<and>
    (truthy pn \<longrightarrow> (\<exists>r. fetchone (\<lambda>p. proc_name p = str_of pn) (processes s) = Some r
                          \<and> 0 < proc_vacancy r)))"
proof (cases "\<exists>x\<in>set (employees s). sql_lower (emp_email x) = sql_lower (normalize_email email)")
  case True
  then show ?thesis by (simp add: add_employee_result Let_def)
next
  case nc: False
  show ?thesis
  proof (cases "truthy pn")
    case False
    with nc show ?thesis by (simp add: add_employee_result Let_def)
  next
    case t: True
    show ?thesis
    proof (cases "fetchone (\<lambda>p. proc_name p = str_of pn) (processes s)")
      case None
      with nc t show ?thesis by (simp add: add_employee_result Let_def)
    next
      case (Some r)
      show ?thesis
      proof (cases "proc_vacancy r \<le> 0")
        case True
        with nc t Some show ?thesis by (simp add: add_employee_result Let_def)
      next
        case False
        with nc t Some show ?thesis by (simp add: add_employee_result Let_def)
      qed
    qed
  qed
qed

lemma wf_add_employee:
  assumes "employees_wf s"
  shows "employees_wf (snd (add_employee name email potential communication pn s))"
  using add_employee_shape[of name email potential communication pn s]
proof (elim disjE conjE exE)
  assume "snd (add_employee name email potential communication pn s) = s"
  with assms show ?thesis by simp
next
  fix pid
  define em where "em = normalize_email email"
  define i where "i = next_rowid (employee_seq s) (map emp_id (employees s))"
  assume nodup: "\<forall>x\<in>set (employees s). sql_lower (emp_email x) \<noteq> sql_lower (normalize_email email)"
    and emps: "employees (snd (add_employee name email potential communication pn s)) =
       employees s @ [\<lparr>emp_id = next_rowid (employee_seq s) (map emp_id (employees s)),
                        emp_name = name, emp_email = normalize_email email,
                        emp_potential = potential, emp_communication = communication,
                        emp_process_id = pid, emp_process_name = pn\<rparr>]"
  from nodup have ne: "\<forall>x\<in>set (employees s). emp_email x \<noteq> normalize_email email" by auto
  have fresh: "\<forall>x\<in>set (employees s). emp_id x \<noteq> next_rowid (employee_seq s) (map emp_id (employees s))"
    by (rule next_rowid_fresh)
  from assms show ?thesis
    unfolding employees_wf_def emps
    by (intro wf_rows_append) (simp_all add: ne fresh normalize_email_idem)
qed

lemma update_employee_shape:
  "(\<not> fst (fst (update_employee i name email potential communication pn s)) \<and>
    snd (update_employee i name email potential communication pn s) = s) \<or>
   (fst (update_employee i name email potential communication pn s) = (True, EmployeeUpdated) \<and>
    int64 i \<and>
    (\<forall>x\<in>set (employees s). emp_id x \<noteq> i \<longrightarrow>
        sql_lower (emp_email x) \<noteq> sql_lower (normalize_email email)) \<and>
    (\<exists>cur pid.
       fetchone (\<lambda>e. emp_id e = i) (employees s) = Some cur \<and>
       employees (snd (update_employee i name email potential communication pn s)) =
         map (\<lambda>e. if emp_id e = i
                   then e\<lparr>emp_name := name, emp_email := normalize_email email,
                          emp_potential := potential, emp_communication := communication,
                          emp_process_id := pid, emp_process_name := pn\<rparr>
                   else e) (employees s) \<and>
       processes (snd (update_employee i name email potential communication pn s)) =
         (if emp_process_name cur = pn then processes s
          else if truthy pn
          then decrement_rows (str_of pn)
                 (if truthy (emp_process_name cur)
                  then increment_rows (str_of (emp_process_name cur)) (processes s)
                  else processes s)
          else if truthy (emp_process_name cur)
          then increment_rows (str_of (emp_process_name cur)) (processes s)
          else processes s) \<and>
       (emp_process_name cur \<noteq> pn \<and> truthy pn \<longrightarrow>
          (\<exists>r. fetchone (\<lambda>p. proc_name p = str_of pn)
                 (if truthy (emp_process_name cur)
                  then increment_rows (str_of (emp_process_name cur)) (processes s)
                  else processes s) = Some r \<and> 0 < proc_vacancy r))))"
proof (cases "int64 i")
  case False
  then show ?thesis by (simp add: update_employee_result)
next
  case fits: True
  show ?thesis
  proof (cases "\<exists>x\<in>set (employees s). sql_lower (emp_email x) = sql_lower (normalize_email email)
                  \<and> emp_id x \<noteq> i")
    case True
    then show ?thesis by (simp add: update_employee_result_fits[OF fits] Let_def)
  next
    case nc: False
    then have nc': "\<forall>x\<in>set (employees s). emp_id x \<noteq> i \<longrightarrow>
          sql_lower (emp_email x) \<noteq> sql_lower (normalize_email email)"
      by auto
    show ?thesis
    proof (cases "fetchone (\<lambda>e. emp_id e = i) (employees s)")
      case None
      with nc show ?thesis by (simp add: update_employee_result_fits[OF fits] Let_def)
    next
      case (Some cur)
      show ?thesis
      proof (cases "emp_process_name cur = pn")
        case True
        with nc Some have
          "update_employee i name email potential communication pn s =
             ((True, EmployeeUpdated),
              s\<lparr>employees := map (\<lambda>e. if emp_id e = i
                     then e\<lparr>emp_name := name, emp_email := normalize_email email,
                            emp_potential := potential, emp_communication := communication,
                            emp_process_id := (if truthy pn
                                 then map_option proc_id
                                        (fetchone (\<lambda>p. proc_name p = str_of pn) (processes s))
                                 else None), emp_process_name := pn\<rparr>
                     else e) (employees s)\<rparr>)"
          by (simp add: update_employee_result_fits[OF fits] Let_def)
        with fits True Some nc' show ?thesis
          by (intro disjI2 conjI exI[of _ cur]
                    exI[of _ "if truthy pn
                                 then map_option proc_id
                                        (fetchone (\<lambda>p. proc_name p = str_of pn) (processes s))
                                 else None"]) simp_all
      next
        case diff: False
        define rows1 where "rows1 = (if truthy (emp_process_name cur)
                    then increment_rows (str_of (emp_process_name cur)) (processes s)
                    else processes s)"
        show ?thesis
        proof (cases "truthy pn")
          case False
          with nc Some diff have
            "update_employee i name email potential communication pn s =
               ((True, EmployeeUpdated),
                s\<lparr>processes := rows1,
                  employees := map (\<lambda>e. if emp_id e = i
                     then e\<lparr>emp_name := name, emp_email := normalize_email email,
                            emp_potential := potential, emp_communication := communication,
                            emp_process_id := None, emp_process_name := pn\<rparr>
                     else e) (employees s)\<rparr>)"
            by (simp add: update_employee_result_fits[OF fits] Let_def rows1_def)
          with fits False diff Some nc' show ?thesis
            by (intro disjI2 conjI exI[of _ cur] exI[of _ None]) (simp_all add: rows1_def)
        next
          case t: True
          show ?thesis
          proof (cases "fetchone (\<lambda>p. proc_name p = str_of pn) rows1")
            case None
            with nc Some diff t show ?thesis
              by (simp add: update_employee_result_fits[OF fits] Let_def rows1_def[symmetric])
          next
            case r: (Some r)
            show ?thesis
            proof (cases "proc_vacancy r \<le> 0")
              case True
              with nc Some diff t r show ?thesis
                by (simp add: update_employee_result_fits[OF fits] Let_def rows1_def[symmetric])
            next
              case False
              with nc Some diff t r have
                "update_employee i name email potential communication pn s =
                   ((True, EmployeeUpdated),
                    s\<lparr>processes := decrement_rows (str_of pn) rows1,
                      employees := map (\<lambda>e. if emp_id e = i
                         then e\<lparr>emp_name := name, emp_email := normalize_email email,
                                emp_potential := potential, emp_communication := communication,
                                emp_process_id := Some (proc_id r), emp_process_name := pn\<rparr>
                         else e) (employees s)\<rparr>)"
                by (simp add: update_employee_result_fits[OF fits] Let_def rows1_def[symmetric])
              with fits False diff Some nc' t r show ?thesis
                by (intro disjI2 conjI exI[of _ cur] exI[of _ "Some (proc_id r)"])
                  (simp_all add: rows1_def[symmetric])
            qed
          qed
        qed
      qed
    qed
  qed
qed

lemma wf_update_employee:
  assumes "employees_wf s"
  shows "employees_wf (snd (update_employee i name email potential communication pn s))"
  using update_employee_shape[of i name email potential communication pn s]
proof (elim disjE conjE exE)
  assume "snd (update_employee i name email potential communication pn s) = s"
  with assms show ?thesis by simp
next
  fix cur pid
  assume nodup: "\<forall>x\<in>set (employees s). emp_id x \<noteq> i \<longrightarrow>
        sql_lower (emp_email x) \<noteq> sql_lower (normalize_email email)"
    and emps: "employees (snd (update_employee i name email potential communication pn s)) =
         map (\<lambda>e. if emp_id e = i
                   then e\<lparr>emp_name := name, emp_email := normalize_email email,
                          emp_potential := potential, emp_communication := communication,
                          emp_process_id := pid, emp_process_name := pn\<rparr>
                   else e) (employees s)"
  from nodup have ne: "\<forall>x\<in>set (employees s). emp_id x \<noteq> i \<longrightarrow> emp_email x \<noteq> normalize_email email"
    by auto
  from assms show ?thesis
    unfolding employees_wf_def emps
    by (intro wf_rows_update) (simp_all add: ne normalize_email_idem)
qed

lemma distinct_map_filter': "distinct (map f xs) \<Longrightarrow> distinct (map f (filter P xs))"
  by (induction xs) auto

lemma wf_delete_employee:
  assumes "employees_wf s"
  shows "employees_wf (snd (delete_employee i s))"
proof (cases "fetchone (\<lambda>e. emp_id e = i) (employees s)")
  case None
  with assms show ?thesis by (simp add: delete_employee_result)
next
  case (Some e)
  then have "employees (snd (delete_employee i s)) = filter (\<lambda>x. emp_id x \<noteq> i) (employees s)"
    by (simp add: delete_employee_result)
  with assms show ?thesis
    by (simp add: employees_wf_def distinct_map_filter' list_all_iff)
qed

lemma wf_update_process_vacancy:
  assumes "employees_wf s"
  shows "employees_wf (snd (update_process_vacancy n d s))"
  using assms by (simp add: update_process_vacancy_cases employees_wf_def)

lemma wf_step: "employees_wf s \<Longrightarrow> employees_wf (step c s)"
  by (cases c)
    (simp_all add: wf_update_process_vacancy wf_add_employee wf_update_employee wf_delete_employee)

lemma wf_run: "employees_wf s \<Longrightarrow> employees_wf (run cs s)"
  by (induction cs arbitrary: s) (simp_all add: wf_step)

lemma wf_emails_unique:
  assumes "employees_wf s"
  shows "emails_unique s"
proof -
  from assms have "list_all (\<lambda>e. normalize_email (emp_email e) = emp_email e) (employees s)"
    by (simp add: employees_wf_def)
  then have eq: "map (\<lambda>e. normalize_email (emp_email e)) (employees s) = map emp_email (employees s)"
    by (intro map_cong refl) (simp add: list_all_iff)
  from assms show ?thesis
    unfolding emails_unique_def eq by (simp add: employees_wf_def)
qed

text \<open>
  Claim C5. From a database whose \<open>employees\<close> table is empty, after any sequence of
  calls (adds and edits, and also deletes and vacancy adjustments) no two employees have
  equal normalized (trimmed, lowercased) emails. In every state so reached, an
  \<open>add_employee\<close> whose normalized email equals the normalized email of a stored
  employee fails with "Email already exists in the database", and an \<open>update_employee\<close>
  whose normalized email equals that of a different stored employee fails with "Email
  already exists for another employee" (for an employee id within the signed 64-bit
  range, as every stored id is; an id outside it cannot be bound and fails with "Database
  error"); both leave the state unchanged. The comparison
  is on normalized emails, so it ignores case and surrounding whitespace.
\<close>

theorem emails_stay_unique:
  assumes "employees s0 = []"
  shows "emails_unique (run cs s0) \<and>
         (\<forall>x\<in>set (employees (run cs s0)).
            normalize_email (emp_email x) = normalize_email email \<longrightarrow>
            add_employee name email potential communication pn (run cs s0)
              = ((False, EmailExists), run cs s0)) \<and>
         (\<forall>x\<in>set (employees (run cs s0)).
            emp_id x \<noteq> i \<and> normalize_email (emp_email x) = normalize_email email \<longrightarrow>
            update_employee i name email potential communication pn (run cs s0)
              = ((False, if int64 i then EmailExistsOther else DatabaseError), run cs s0))"
proof -
  define s where "s = run cs s0"
  from assms have "employees_wf s0" by (simp add: employees_wf_def)
  then have wf: "employees_wf s" unfolding s_def by (rule wf_run)
  then have norm: "\<forall>x\<in>set (employees s). normalize_email (emp_email x) = emp_email x"
    by (simp add: employees_wf_def list_all_iff)
  have 1: "emails_unique s" using wf by (rule wf_emails_unique)
  have 2: "add_employee name email potential communication pn s = ((False, EmailExists), s)"
    if "x \<in> set (employees s)" "normalize_email (emp_email x) = normalize_email email" for x
  proof -
    from that norm have "emp_email x = normalize_email email" by simp
    with that(1) have "\<exists>x\<in>set (employees s). sql_lower (emp_email x) = sql_lower (normalize_email email)"
      by (intro bexI[of _ x]) simp_all
    then show ?thesis by (simp add: add_employee_result Let_def)
  qed
  have 3: "update_employee i name email potential communication pn s
             = ((False, if int64 i then EmailExistsOther else DatabaseError), s)"
    if "x \<in> set (employees s)" "emp_id x \<noteq> i" "normalize_email (emp_email x) = normalize_email email" for x
  proof -
    from that norm have "emp_email x = normalize_email email" by simp
    with that(1,2) have "\<exists>x\<in>set (employees s). sql_lower (emp_email x) = sql_lower (normalize_email email)
          \<and> emp_id x \<noteq> i"
      by (intro bexI[of _ x]) simp_all
    then show ?thesis by (simp add: update_employee_result Let_def)
  qed
  from 1 2 3 show ?thesis unfolding s_def by blast
qed

theorem emails_stay_unique_witness:
  "add_employee ''Ann'' ''Foo@X.com'' ''Sales'' ''Good'' None
     (run [AddEmployee ''Eve'' ''foo@x.com'' ''Sales'' ''Good'' None] init_db)
   = ((False, EmailExists), run [AddEmployee ''Eve'' ''foo@x.com'' ''Sales'' ''Good'' None] init_db) \<and>
   update_employee 2 ''Ann'' '' FOO@x.com '' ''Sales'' ''Good'' None
     (run [AddEmployee ''Eve'' ''foo@x.com'' ''Sales'' ''Good'' None,
           AddEmployee ''Ann'' ''ann@x.com'' ''Sales'' ''Good'' None] init_db)
   = ((False, EmailExistsOther),
      run [AddEmployee ''Eve'' ''foo@x.com'' ''Sales'' ''Good'' None,
           AddEmployee ''Ann'' ''ann@x.com'' ''Sales'' ''Good'' None] init_db)"
proof -
  let ?s1 = "run [AddEmployee ''Eve'' ''foo@x.com'' ''Sales'' ''Good'' None] init_db"
  let ?s2 = "run [AddEmployee ''Eve'' ''foo@x.com'' ''Sales'' ''Good'' None,
           AddEmployee ''Ann'' ''ann@x.com'' ''Sales'' ''Good'' None] init_db"
  have e: "employees init_db = []" by (simp add: init_db_def)
  have i: "int64 2" by (simp add: int64_def)
  have a: "\<exists>x\<in>set (employees ?s1). normalize_email (emp_email x) = normalize_email ''Foo@X.com''"
    by code_simp
  have b: "\<exists>x\<in>set (employees ?s2). emp_id x \<noteq> 2 \<and> normalize_email (emp_email x) = normalize_email '' FOO@x.com ''"
    by code_simp
  from emails_stay_unique [OF e, of "[AddEmployee ''Eve'' ''foo@x.com'' ''Sales'' ''Good'' None]"
        "''Foo@X.com''" "''Ann''" "''Sales''" "''Good''" None] a
  have 1: "add_employee ''Ann'' ''Foo@X.com'' ''Sales'' ''Good'' None ?s1 = ((False, EmailExists), ?s1)"
    by blast
  from b obtain x where x: "x \<in> set (employees ?s2)"
      "emp_id x \<noteq> 2 \<and> normalize_email (emp_email x) = normalize_email '' FOO@x.com ''"
    by blast
  note T = emails_stay_unique [OF e, of "[AddEmployee ''Eve'' ''foo@x.com'' ''Sales'' ''Good'' None,
           AddEmployee ''Ann'' ''ann@x.com'' ''Sales'' ''Good'' None]"
        "'' FOO@x.com ''" "''Ann''" "''Sales''" "''Good''" None 2, THEN conjunct2, THEN conjunct2,
        rule_format, OF x]
  from T have 2: "update_employee 2 ''Ann'' '' FOO@x.com '' ''Sales'' ''Good'' None ?s2 = ((False, EmailExistsOther), ?s2)"
    by (simp only: i if_True)
  from 1 2 show ?thesis by blast
qed

section \<open>Conservation of slots\<close>















lemma run_append: "run (cs @ ds) s = run ds (run cs s)"
  by (induction cs arbitrary: s) simp_all











end
